theory Spec2Isabelle
  imports Main "HOL-Library.Sublist"
begin

section \<open>Configuration: the process environment\<close>

text \<open>
  Every setting is read from \<^verbatim>\<open>process.env\<close>. A variable is either undefined
  (\<open>None\<close>) or a string (\<open>Some s\<close>, possibly empty). JavaScript tests such a value
  for truthiness: undefined and the empty string are falsy, every other string is truthy.
\<close>

record env =
  AUTH :: "string option"
  CLIENT_ID :: "string option"
  IS_BROWSER :: "string option"
  PREVIEW :: "string option"
  SERVER_URL :: "string option"
  API_VERSION :: "string option"
  CHANNEL_TOKEN :: "string option"
  NEXT_PUBLIC_SERVER_URL :: "string option"

definition falsy :: "string option \<Rightarrow> bool" where
  "falsy v = (case v of None \<Rightarrow> True | Some s \<Rightarrow> s = [])"

definition truthy :: "string option \<Rightarrow> bool" where
  "truthy v = (case v of None \<Rightarrow> False | Some s \<Rightarrow> s \<noteq> [])"

text \<open>String conversion of a possibly undefined value, as a template literal or
  \<^verbatim>\<open>String.prototype.replace\<close> performs it.\<close>

definition to_str :: "string option \<Rightarrow> string" where
  "to_str v = (case v of None \<Rightarrow> ''undefined'' | Some s \<Rightarrow> s)"

text \<open>\<^verbatim>\<open>isAuthNeeded\<close>, server-config-utils.js lines 51-56.\<close>

definition isAuthNeeded :: "env \<Rightarrow> bool" where
  "isAuthNeeded e = (if truthy (AUTH e) \<or> truthy (CLIENT_ID e) then True else False)"

section \<open>The token cache\<close>

text \<open>
  Times are milliseconds since the epoch. A \<^verbatim>\<open>Date\<close> object holds a time value or is
  an invalid date (its \<^verbatim>\<open>getTime()\<close> is NaN); \<^verbatim>\<open>new Date(t)\<close> clips \<open>t\<close> to the
  range of valid time values. A JavaScript number that may be NaN is an \<open>int option\<close>
  with \<open>None\<close> for NaN; every comparison with NaN is false.
\<close>

datatype jsdate = Date int | InvalidDate

definition new_Date :: "int option \<Rightarrow> jsdate" where
  "new_Date t = (case t of None \<Rightarrow> InvalidDate
     | Some ms \<Rightarrow> if abs ms \<le> 8640000000000000 then Date ms else InvalidDate)"

definition getTime :: "jsdate \<Rightarrow> int option" where
  "getTime d = (case d of Date ms \<Rightarrow> Some ms | InvalidDate \<Rightarrow> None)"

definition js_minus :: "int option \<Rightarrow> int \<Rightarrow> int option" where
  "js_minus a b = (case a of None \<Rightarrow> None | Some x \<Rightarrow> Some (x - b))"

definition js_plus :: "int \<Rightarrow> int option \<Rightarrow> int option" where
  "js_plus a b = (case b of None \<Rightarrow> None | Some y \<Rightarrow> Some (a + y))"

definition js_gt :: "int option \<Rightarrow> int \<Rightarrow> bool" where
  "js_gt a b = (case a of None \<Rightarrow> False | Some x \<Rightarrow> x > b)"

definition FIVE_SECONDS_MS :: int where
  "FIVE_SECONDS_MS = 5000"

text \<open>The module globals \<^verbatim>\<open>globalAuthValue\<close> (a string or null) and
  \<^verbatim>\<open>globalAuthExpiry\<close> (a Date or null), lines 45-46.\<close>

record auth_state =
  globalAuthValue :: "string option"
  globalAuthExpiry :: "jsdate option"

definition initial_auth_state :: auth_state where
  "initial_auth_state = \<lparr>globalAuthValue = Some [], globalAuthExpiry = None\<rparr>"

datatype js_error = TypeError | FetchError | InvalidJson | HeadersSent

text \<open>
  What happens when the body of \<^verbatim>\<open>getBearerAuth\<close> (lines 67-98) runs against the
  token endpoint: building the request URL throws before anything is sent, the fetch
  throws, parsing the response body throws, or a JSON object arrives whose
  \<^verbatim>\<open>access_token\<close> and \<^verbatim>\<open>expires_in\<close> members are present or undefined.
\<close>

datatype token_reply =
  RequestThrows | FetchThrows | JsonThrows | Json "string option" "int option"

record auth_details =
  authHeaderValue :: string
  expiry :: "int option"

text \<open>\<^verbatim>\<open>getBearerAuth\<close>: the result or the error thrown, and the number of fetches sent.\<close>

definition getBearerAuth :: "token_reply \<Rightarrow> (js_error + auth_details) \<times> nat" where
  "getBearerAuth r = (case r of
       RequestThrows \<Rightarrow> (Inl TypeError, 0)
     | FetchThrows \<Rightarrow> (Inl FetchError, 1)
     | JsonThrows \<Rightarrow> (Inl InvalidJson, 1)
     | Json access_token expires_in \<Rightarrow>
         (Inr \<lparr>authHeaderValue = ''Bearer '' @ to_str access_token, expiry = expires_in\<rparr>, 1))"

text \<open>The test of lines 113-114 that decides whether a new token is fetched.\<close>

definition refresh_test :: "auth_state \<Rightarrow> int \<Rightarrow> bool" where
  "refresh_test s currentDate =
     (falsy (globalAuthValue s) \<or>
      (case globalAuthExpiry s of
         None \<Rightarrow> True
       | Some d \<Rightarrow> js_gt (js_minus (getTime d) FIVE_SECONDS_MS) currentDate))"

text \<open>
  \<^verbatim>\<open>getAuthValue\<close>, lines 103-132. \<open>currentDate\<close> is the clock read at line 110,
  \<open>reply\<close> what the token endpoint does if it is asked, \<open>dateNow\<close> the clock read at
  line 121 after the reply. The result is the value returned or the error thrown, the
  module globals afterwards, and the number of fetches sent.
\<close>

definition getAuthValue ::
  "env \<Rightarrow> int \<Rightarrow> token_reply \<Rightarrow> int \<Rightarrow> auth_state
     \<Rightarrow> (js_error + string option) \<times> auth_state \<times> nat" where
  "getAuthValue e currentDate reply dateNow s =
     (if truthy (AUTH e) then
        (let s1 = s\<lparr>globalAuthValue := AUTH e\<rparr> in (Inr (globalAuthValue s1), s1, 0))
      else if truthy (CLIENT_ID e) then
        (if refresh_test s currentDate then
           (let s1 = s\<lparr>globalAuthValue := Some []\<rparr> in
            case getBearerAuth reply of
              (Inl err, k) \<Rightarrow> (Inl err, s1, k)
            | (Inr authDetails, k) \<Rightarrow>
                (let s2 = s1\<lparr>globalAuthValue := Some (authHeaderValue authDetails)\<rparr>;
                     currDateMS = js_plus dateNow (expiry authDetails);
                     s3 = s2\<lparr>globalAuthExpiry := Some (new_Date currDateMS)\<rparr>
                 in (Inr (globalAuthValue s3), s3, k)))
         else (Inr (globalAuthValue s), s, 0))
      else
        (let s1 = s\<lparr>globalAuthValue := None, globalAuthExpiry := None\<rparr>
         in (Inr (globalAuthValue s1), s1, 0)))"

section \<open>The content client factory\<close>

text \<open>
  \<^verbatim>\<open>createDeliveryClient\<close> and \<^verbatim>\<open>createPreviewClient\<close> belong to the content SDK.
  Each call builds a new client object; the heap below holds the objects built so far and
  a client is referred to by its address, so that equal addresses are the same instance.
  \<open>beforeSend\<close> records whether \<^verbatim>\<open>beforeSendCallback\<close> was attached.
\<close>

datatype client_kind = DeliveryClient | PreviewClient

record serverconfig =
  contentServer :: "string option"
  contentVersion :: "string option"
  channelToken :: "string option"
  beforeSend :: bool

record client_obj =
  kind :: client_kind
  config :: serverconfig

type_synonym heap = "client_obj list"

definition createDeliveryClient :: "serverconfig \<Rightarrow> heap \<Rightarrow> nat \<times> heap" where
  "createDeliveryClient c h = (length h, h @ [\<lparr>kind = DeliveryClient, config = c\<rparr>])"

definition createPreviewClient :: "serverconfig \<Rightarrow> heap \<Rightarrow> nat \<times> heap" where
  "createPreviewClient c h = (length h, h @ [\<lparr>kind = PreviewClient, config = c\<rparr>])"

text \<open>
  \<^verbatim>\<open>getClient\<close> of the module with authorization support (header dated 2020, 2021),
  server-config-utils.js lines 162-197. \<open>origin\<close> is \<^verbatim>\<open>window.location.origin\<close>.
\<close>

definition getClient_v2021 :: "env \<Rightarrow> string \<Rightarrow> heap \<Rightarrow> nat \<times> heap" where
  "getClient_v2021 e origin h =
     (let serverURL = (if isAuthNeeded e \<and> truthy (IS_BROWSER e)
                       then Some (origin @ ''/'') else SERVER_URL e);
          serverconfig0 = \<lparr>contentServer = serverURL, contentVersion = API_VERSION e,
                           channelToken = CHANNEL_TOKEN e, beforeSend = False\<rparr>;
          serverconfig1 = (if isAuthNeeded e \<and> falsy (IS_BROWSER e)
                           then serverconfig0\<lparr>beforeSend := True\<rparr> else serverconfig0)
      in if truthy (PREVIEW e) then createPreviewClient serverconfig1 h
         else createDeliveryClient serverconfig1 h)"

text \<open>
  \<^verbatim>\<open>getClient\<close> of the delivery-only module (header dated 2020, 2022), lines 215-242,
  with its module variable \<^verbatim>\<open>clientInstance\<close> (null or a client).
\<close>

record client_module =
  clientInstance :: "nat option"
  objects :: heap

definition getClient_v2022 :: "env \<Rightarrow> client_module \<Rightarrow> nat \<times> client_module" where
  "getClient_v2022 e m =
     (case clientInstance m of
        None \<Rightarrow>
          (let serverconfig0 = \<lparr>contentServer = SERVER_URL e, contentVersion = API_VERSION e,
                                channelToken = CHANNEL_TOKEN e, beforeSend = False\<rparr>;
               (r, h) = createDeliveryClient serverconfig0 (objects m);
               m1 = m\<lparr>clientInstance := Some r, objects := h\<rparr>
           in (r, m1))
      | Some r \<Rightarrow> (r, m))"

text \<open>The module after \<open>n\<close> calls of \<^verbatim>\<open>getClient\<close>.\<close>

definition after_calls :: "env \<Rightarrow> nat \<Rightarrow> client_module \<Rightarrow> client_module" where
  "after_calls e n m = ((\<lambda>x. snd (getClient_v2022 e x)) ^^ n) m"

section \<open>String replacement and the image URL\<close>

text \<open>
  \<^verbatim>\<open>s.replace(pat, rep)\<close> with a string pattern and a replacement that holds no
  \<^verbatim>\<open>$\<close>: the leftmost occurrence of \<open>pat\<close> in \<open>s\<close> is replaced by \<open>rep\<close>, and \<open>s\<close>
  is returned as it is when \<open>pat\<close> does not occur. The empty pattern occurs at the front.
\<close>

fun js_replace :: "string \<Rightarrow> string \<Rightarrow> string \<Rightarrow> string" where
  "js_replace [] pat rep = (if pat = [] then rep else [])"
| "js_replace (c # cs) pat rep =
     (if prefix pat (c # cs) then rep @ drop (length pat) (c # cs)
      else c # js_replace cs pat rep)"

text \<open>\<^verbatim>\<open>getImageUrl\<close>, utils.js lines 18-25.\<close>

definition getImageUrl :: "env \<Rightarrow> string \<Rightarrow> string" where
  "getImageUrl e originalUrl =
     (if isAuthNeeded e
      then js_replace originalUrl (to_str (NEXT_PUBLIC_SERVER_URL e)) ''/api''
      else originalUrl)"

section \<open>The proxy handler\<close>

datatype transport = Http | Https

record request =
  req_method :: string
  req_url :: string
  req_body :: string

text \<open>The request sent to the content server: \<^verbatim>\<open>http.request(oceUrl, options, ...)\<close>
  with the body of the incoming request piped into it.\<close>

record outbound =
  via :: transport
  oceUrl :: string
  authorization :: "string option"
  out_body :: string

record response =
  statusCode :: nat
  headers :: "(string \<times> string) list"
  body :: string

text \<open>
  The response object \<^verbatim>\<open>res\<close> of the incoming request: the head (status code and
  headers) once it is written, the body written so far, and whether the response is ended.
  A response whose head is not written yet has no body and is not ended.
\<close>

record server_response =
  res_head :: "(nat \<times> (string \<times> string) list) option"
  res_body :: string
  res_ended :: bool

text \<open>\<^verbatim>\<open>res.writeHead(statusCode, headers)\<close>: throws when the head is already written.\<close>

definition writeHead ::
  "nat \<Rightarrow> (string \<times> string) list \<Rightarrow> server_response \<Rightarrow> js_error + server_response" where
  "writeHead status hs res =
     (if res_head res = None then Inr (res\<lparr>res_head := Some (status, hs)\<rparr>)
      else Inl HeadersSent)"

text \<open>\<^verbatim>\<open>source.pipe(res, {end: true})\<close>: the data of the source are written to
  \<^verbatim>\<open>res\<close>, which is then ended.\<close>

definition pipe_end :: "string \<Rightarrow> server_response \<Rightarrow> server_response" where
  "pipe_end dat res = res\<lparr>res_body := res_body res @ dat, res_ended := True\<rparr>"

text \<open>\<^verbatim>\<open>writeProxyContent\<close>, lines 53-58.\<close>

definition writeProxyContent :: "response \<Rightarrow> server_response \<Rightarrow> js_error + server_response" where
  "writeProxyContent proxyResponse res =
     (case writeHead (statusCode proxyResponse) (headers proxyResponse) res of
        Inl err \<Rightarrow> Inl err
      | Inr res1 \<Rightarrow> Inr (pipe_end (body proxyResponse) res1))"

text \<open>
  What a proxied request comes to: nothing is done (not a GET); the credential could not
  be obtained, so the request is never passed on; creating the outgoing request throws, so
  nothing is sent; the request is passed on but writing the answer throws; or the request
  is passed on and the answer of the content server, if there is one, is written.
\<close>

datatype proxied =
  Ignored | AuthRejected js_error | Threw js_error | WriteFailed outbound js_error
  | Forwarded outbound

text \<open>
  \<^verbatim>\<open>handleContentRequest\<close>, the API route lines 34-69 of the second document of
  pages/_app.jsx. \<^verbatim>\<open>http.request\<close> and \<^verbatim>\<open>https.request\<close> belong to Node:
  \<open>node_request\<close> tells for a transport, a URL and the authorization header whether the
  request object is created (\<open>None\<close>) or which error is thrown by the call (a URL that
  cannot be parsed, a protocol that is not the transport's, a header value that is not
  allowed). \<open>upstream\<close> is the content server: its answer to a request, if it answers.
  The result is what became of the request, and \<^verbatim>\<open>res\<close> afterwards.
\<close>

definition handleContentRequest ::
  "env \<Rightarrow> (transport \<Rightarrow> string \<Rightarrow> string option \<Rightarrow> js_error option)
     \<Rightarrow> (outbound \<Rightarrow> response option) \<Rightarrow> request \<Rightarrow> server_response \<Rightarrow> string option
     \<Rightarrow> proxied \<times> server_response" where
  "handleContentRequest e node_request upstream req res authValue =
     (if req_method req \<noteq> ''GET'' then (Ignored, res)
      else
        (let newURL = js_replace (req_url req) ''/api/'' ''/'';
             url = to_str (NEXT_PUBLIC_SERVER_URL e) @ newURL;
             options = (if truthy authValue then authValue else None);
             transport = (if prefix ''https'' url then Https else Http)
         in case node_request transport url options of
              Some err \<Rightarrow> (Threw err, res)
            | None \<Rightarrow>
                (let proxy = \<lparr>via = transport, oceUrl = url, authorization = options,
                              out_body = req_body req\<rparr>
                 in case upstream proxy of
                      None \<Rightarrow> (Forwarded proxy, res)
                    | Some proxyResponse \<Rightarrow>
                        (case writeProxyContent proxyResponse res of
                           Inl err \<Rightarrow> (WriteFailed proxy err, res)
                         | Inr res1 \<Rightarrow> (Forwarded proxy, res1)))))"

text \<open>\<^verbatim>\<open>handler\<close>, lines 86-98 of the same document. The promise of
  \<^verbatim>\<open>getAuthValue\<close> has a \<^verbatim>\<open>then\<close> and no \<^verbatim>\<open>catch\<close>: when it is rejected,
  \<^verbatim>\<open>handleContentRequest\<close> is not called.\<close>

definition handler ::
  "env \<Rightarrow> (transport \<Rightarrow> string \<Rightarrow> string option \<Rightarrow> js_error option)
     \<Rightarrow> (outbound \<Rightarrow> response option) \<Rightarrow> request \<Rightarrow> server_response
     \<Rightarrow> int \<Rightarrow> token_reply \<Rightarrow> int \<Rightarrow> auth_state
     \<Rightarrow> proxied \<times> server_response \<times> auth_state" where
  "handler e node_request upstream req res currentDate reply dateNow s =
     (if isAuthNeeded e then
        (case getAuthValue e currentDate reply dateNow s of
           (Inl err, s1, k) \<Rightarrow> (AuthRejected err, res, s1)
         | (Inr authValue, s1, k) \<Rightarrow>
             (let (p, res1) = handleContentRequest e node_request upstream req res authValue
              in (p, res1, s1)))
      else
        (let (p, res1) = handleContentRequest e node_request upstream req res (Some [])
         in (p, res1, s)))"

section \<open>Fetching the items of the categories\<close>

text \<open>
  A JavaScript value as \<^verbatim>\<open>flattenArray\<close> sees it: an array of values, or anything
  else. Arrays are finite trees here; an array that contains itself is not one.
\<close>

datatype 'a js_value = Atom 'a | Array "'a js_value list"

text \<open>
  \<^verbatim>\<open>flattenArray\<close>, services.js lines 38-48. The loop over \<^verbatim>\<open>inArray\<close> is the
  recursion over the list; \<^verbatim>\<open>result.push\<close> appends to the accumulator, which the
  recursive call on a nested array fills further and which is returned at the end.
\<close>

fun flattenArray :: "'a js_value list \<Rightarrow> 'a list \<Rightarrow> 'a list" where
  "flattenArray [] result = result"
| "flattenArray (Atom arrayElement # inArray) result =
     flattenArray inArray (result @ [arrayElement])"
| "flattenArray (Array arrayElement # inArray) result =
     flattenArray inArray (flattenArray arrayElement result)"

text \<open>The non-array elements of a value, from left to right, at any depth.\<close>

fun leaves :: "'a js_value \<Rightarrow> 'a list" where
  "leaves (Atom x) = [x]"
| "leaves (Array vs) = concat (map leaves vs)"

text \<open>
  A category object: its id, the two members that \<^verbatim>\<open>addItemsToCategories\<close> sets
  (undefined until then), and whatever other members it has in the record's extension.
  The answer of the content server to an items query has \<^verbatim>\<open>items\<close> and
  \<^verbatim>\<open>totalResults\<close>.
\<close>

record ('i, 't) category =
  cat_id :: string
  cat_items :: "'i option"
  cat_totalResults :: "'t option"

record ('i, 't) top_level_item =
  items :: 'i
  totalResults :: 't

record items_query =
  query_q :: string
  query_limit :: nat
  query_totalResults :: bool

text \<open>
  \<^verbatim>\<open>fetchItemsForCategory\<close>, lines 111-120. \<open>getItems\<close> is the delivery client's
  method: the answer or the failure of one call. A failure is caught and logged, and the
  promise is then fulfilled with undefined (\<open>None\<close>).
\<close>

definition fetchItemsForCategory ::
  "(items_query \<Rightarrow> js_error + ('i, 't) top_level_item) \<Rightarrow> string \<Rightarrow> bool
     \<Rightarrow> ('i, 't) top_level_item option" where
  "fetchItemsForCategory getItems categoryId limit =
     (case getItems \<lparr>query_q = ''(taxonomies.categories.nodes.id eq \"'' @ categoryId
                                  @ ''\" AND type eq \"Image\")'',
                      query_limit = (if limit then 4 else 100),
                      query_totalResults = True\<rparr> of
        Inl error \<Rightarrow> None
      | Inr topLevelItem \<Rightarrow> Some topLevelItem)"

text \<open>
  The category objects live in a store, addressed by natural numbers; the input array
  \<^verbatim>\<open>categories\<close> is a list of addresses, so two entries may be the same object.

  The callback of lines 188-207, run when the fetch for the object at \<open>a\<close> is settled:
  reading \<^verbatim>\<open>items\<close> of undefined throws; otherwise the object is updated in the store
  and a copy of it is returned.
\<close>

definition then_callback ::
  "(nat \<Rightarrow> ('i, 't, 'm) category_scheme) \<Rightarrow> nat \<Rightarrow> ('i, 't) top_level_item option
     \<Rightarrow> js_error + ('i, 't, 'm) category_scheme \<times> (nat \<Rightarrow> ('i, 't, 'm) category_scheme)" where
  "then_callback store a topLevelItem =
     (case topLevelItem of
        None \<Rightarrow> Inl TypeError
      | Some t \<Rightarrow>
          (let store1 = store(a := (store a)\<lparr>cat_items := Some (items t)\<rparr>);
               store2 = store1(a := (store1 a)\<lparr>cat_totalResults := Some (totalResults t)\<rparr>)
           in Inr (store2 a, store2)))"

text \<open>
  \<^verbatim>\<open>Promise.all\<close> over the promises of lines 186-209. \<open>fetched k\<close> is what the fetch
  for the \<open>k\<close>-th category is settled with, \<open>order\<close> lists the indices of the promises in
  the order in which they are settled. Each callback runs when its fetch is settled; its
  result goes to the slot of its index, and the first callback that throws rejects the
  whole. The state is the store, the slots and the first rejection.
\<close>

fun settle_all ::
  "(nat \<Rightarrow> ('i, 't) top_level_item option) \<Rightarrow> nat list \<Rightarrow> nat list
     \<Rightarrow> (nat \<Rightarrow> ('i, 't, 'm) category_scheme) \<Rightarrow> ('i, 't, 'm) category_scheme option list
     \<Rightarrow> js_error option
     \<Rightarrow> (nat \<Rightarrow> ('i, 't, 'm) category_scheme) \<times> ('i, 't, 'm) category_scheme option list
          \<times> js_error option" where
  "settle_all fetched categories [] store slots rejection = (store, slots, rejection)"
| "settle_all fetched categories (k # order) store slots rejection =
     (if k < length categories then
        (case then_callback store (categories ! k) (fetched k) of
           Inl err \<Rightarrow>
             settle_all fetched categories order store slots
               (case rejection of None \<Rightarrow> Some err | Some first \<Rightarrow> Some first)
         | Inr (copy, store1) \<Rightarrow>
             settle_all fetched categories order store1 (slots[k := Some copy]) rejection)
      else settle_all fetched categories order store slots rejection)"

datatype 'a promise = Pending | Rejected js_error | Fulfilled 'a

text \<open>
  \<^verbatim>\<open>addItemsToCategories\<close>, lines 179-214. The fetches are all started first, the
  \<open>k\<close>-th for the id that the \<open>k\<close>-th category has at that moment; \<open>getItems k\<close> is what
  the delivery client does with the \<open>k\<close>-th of these calls. The promise returned stays
  pending while a slot is empty. The store afterwards is returned with it.
\<close>

definition addItemsToCategories ::
  "(nat \<Rightarrow> items_query \<Rightarrow> js_error + ('i, 't) top_level_item)
     \<Rightarrow> (nat \<Rightarrow> ('i, 't, 'm) category_scheme) \<Rightarrow> nat list \<Rightarrow> nat list
     \<Rightarrow> ('i, 't, 'm) category_scheme list promise \<times> (nat \<Rightarrow> ('i, 't, 'm) category_scheme)" where
  "addItemsToCategories getItems store categories order =
     (let fetched = (\<lambda>k. fetchItemsForCategory (getItems k) (cat_id (store (categories ! k))) True);
          (store1, slots, rejection) =
             settle_all fetched categories order store (replicate (length categories) None) None
      in (case rejection of
            Some err \<Rightarrow> Rejected err
          | None \<Rightarrow>
              (case those slots of
                 None \<Rightarrow> Pending
               | Some arrayOfItems \<Rightarrow> Fulfilled (flattenArray (map Atom arrayOfItems) [])),
          store1))"

text \<open>
  An order of completion for \<open>n\<close> promises: each index below \<open>n\<close> once.
\<close>

definition completion_order :: "nat \<Rightarrow> nat list \<Rightarrow> bool" where
  "completion_order n order = (distinct order \<and> set order = {0..<n})"

text \<open>The error that \<^verbatim>\<open>getBearerAuth\<close> throws on a reply, if it throws.\<close>

definition reply_error :: "token_reply \<Rightarrow> js_error option" where
  "reply_error r = (case fst (getBearerAuth r) of Inl err \<Rightarrow> Some err | Inr d \<Rightarrow> None)"

section \<open>Sample configurations and inputs\<close>

definition oauth_env :: env where
  "oauth_env = \<lparr>AUTH = None, CLIENT_ID = Some ''id'', IS_BROWSER = None, PREVIEW = None,
     SERVER_URL = Some ''https://host'', API_VERSION = Some ''v1.1'',
     CHANNEL_TOKEN = Some ''tok'', NEXT_PUBLIC_SERVER_URL = Some ''https://host''\<rparr>"

definition static_env :: env where
  "static_env = oauth_env\<lparr>AUTH := Some ''Basic abc'', CLIENT_ID := None\<rparr>"

definition open_env :: env where
  "open_env = oauth_env\<lparr>CLIENT_ID := None\<rparr>"

text \<open>A cached token that expires at 10000 ms.\<close>

definition cached_10s :: auth_state where
  "cached_10s = \<lparr>globalAuthValue = Some ''Bearer old'', globalAuthExpiry = Some (Date 10000)\<rparr>"

definition fresh_module :: client_module where
  "fresh_module = \<lparr>clientInstance = None, objects = []\<rparr>"

definition echo_server :: "outbound \<Rightarrow> response option" where
  "echo_server p = Some \<lparr>statusCode = 200,
     headers = [(''content-type'', ''image/jpeg'')], body = oceUrl p\<rparr>"

text \<open>A stand-in for Node's check of an outgoing request: a URL is accepted when it
  starts with the scheme of the transport.\<close>

definition sample_node_request :: "transport \<Rightarrow> string \<Rightarrow> string option \<Rightarrow> js_error option" where
  "sample_node_request t url auth =
     (if (t = Https \<and> prefix ''https://'' url) \<or> (t = Http \<and> prefix ''http://'' url)
      then None else Some TypeError)"

definition fresh_res :: server_response where
  "fresh_res = \<lparr>res_head = None, res_body = [], res_ended = False\<rparr>"

definition no_scheme_env :: env where
  "no_scheme_env = open_env\<lparr>NEXT_PUBLIC_SERVER_URL := Some ''host''\<rparr>"

definition get_foo_bar :: request where
  "get_foo_bar = \<lparr>req_method = ''GET'', req_url = ''/api/foo/bar?x=1'', req_body = []\<rparr>"

definition two_categories :: "nat \<Rightarrow> (string list, nat) category" where
  "two_categories a = \<lparr>cat_id = (if a = 0 then ''c0'' else ''c1''),
     cat_items = None, cat_totalResults = None\<rparr>"

definition sample_getItems :: "nat \<Rightarrow> items_query \<Rightarrow> js_error + (string list, nat) top_level_item" where
  "sample_getItems k q = Inr \<lparr>items = [''item of call '' @ (if k = 0 then ''0'' else ''1'')],
     totalResults = query_limit q + k\<rparr>"

definition failing_getItems :: "nat \<Rightarrow> items_query \<Rightarrow> js_error + (string list, nat) top_level_item" where
  "failing_getItems k q = (if k = 0 then Inl FetchError else sample_getItems k q)"

section \<open>The credential resolver and the token cache\<close>

lemmas auth_defs = getAuthValue_def refresh_test_def getBearerAuth_def falsy_def truthy_def
  to_str_def new_Date_def getTime_def js_minus_def js_plus_def js_gt_def FIVE_SECONDS_MS_def

text \<open>
  With a client id and no static value, \<^verbatim>\<open>getAuthValue\<close> is decided by the test of
  lines 113-114 alone: the token is fetched when the test holds, and the cached value is
  returned with the globals untouched when it does not.
\<close>

lemma getAuthValue_oauth:
  assumes "falsy (AUTH e)" and "truthy (CLIENT_ID e)"
  shows "getAuthValue e currentDate reply dateNow s =
           (if refresh_test s currentDate
            then (case getBearerAuth reply of
                    (Inl err, k) \<Rightarrow> (Inl err, s\<lparr>globalAuthValue := Some []\<rparr>, k)
                  | (Inr d, k) \<Rightarrow>
                      (Inr (Some (authHeaderValue d)),
                       \<lparr>globalAuthValue = Some (authHeaderValue d),
                        globalAuthExpiry = Some (new_Date (js_plus dateNow (expiry d)))\<rparr>, k))
            else (Inr (globalAuthValue s), s, 0))"
  using assms
  by (auto simp: getAuthValue_def falsy_def truthy_def Let_def
      split: option.splits prod.splits sum.splits)

text \<open>
  For a valid cached expiry the test of lines 113-114 holds exactly while the current time
  is more than five seconds before the expiry.
\<close>

lemma refresh_test_cached:
  assumes "truthy (globalAuthValue s)" and "globalAuthExpiry s = Some (Date x)"
  shows "refresh_test s currentDate = (currentDate < x - 5000)"
  using assms
  by (auto simp: refresh_test_def falsy_def truthy_def getTime_def js_minus_def js_gt_def
      FIVE_SECONDS_MS_def split: option.splits)

text \<open>
  C1. The claim: with a client id and no static value, a cached credential is returned
  without a fetch while the current time is more than five seconds before the cached
  expiry, and in every other case exactly one refresh is made and its credential returned.
  The comment of lines 111-112 says the same (refresh the token once it has expired, with a
  buffer of five seconds). The comparison of line 114 is the other way round, as
  \<open>refresh_test_cached\<close> shows. The code is evaluated on a cached token that expires at
  10 s: at time 0, ten seconds before the expiry, the token is fetched anew; at 6 s, within
  five seconds of the expiry, and at 20 s, after the expiry, the old token is returned and
  nothing is fetched.
\<close>

theorem getAuthValue_expiry_test_inverted:
  "getAuthValue oauth_env 0 (Json (Some ''new'') (Some 3600)) 100 cached_10s =
     (Inr (Some ''Bearer new''),
      \<lparr>globalAuthValue = Some ''Bearer new'', globalAuthExpiry = Some (Date 3700)\<rparr>, 1)
   \<and> getAuthValue oauth_env 6000 (Json (Some ''new'') (Some 3600)) 6100 cached_10s =
     (Inr (Some ''Bearer old''), cached_10s, 0)
   \<and> getAuthValue oauth_env 20000 (Json (Some ''new'') (Some 3600)) 20100 cached_10s =
     (Inr (Some ''Bearer old''), cached_10s, 0)"
  by (simp add: auth_defs oauth_env_def cached_10s_def)

text \<open>
  C2, as stated: after a refresh that fails, both globals are what they were before.
  Line 115 empties \<^verbatim>\<open>globalAuthValue\<close> before the token is requested, so a failed
  refresh of a filled cache leaves the empty string beside the old expiry.
\<close>

theorem refresh_failure_clears_value_counterexample:
  "getAuthValue oauth_env 0 FetchThrows 100 cached_10s =
     (Inl FetchError, \<lparr>globalAuthValue = Some [], globalAuthExpiry = Some (Date 10000)\<rparr>, 1)
   \<and> fst (snd (getAuthValue oauth_env 0 FetchThrows 100 cached_10s)) \<noteq> cached_10s"
  by (simp add: auth_defs oauth_env_def cached_10s_def)

text \<open>
  C2, amended: when a refresh fails, the error reaches the caller of
  \<^verbatim>\<open>getAuthValue\<close>; the cached value is then the empty string and the expiry is what
  it was before the attempt, so that the next call, at whatever time, attempts a refresh
  again.
\<close>

theorem refresh_failure_resets_value_keeps_expiry:
  assumes "falsy (AUTH e)" and "truthy (CLIENT_ID e)"
    and "refresh_test s currentDate" and "reply_error reply = Some err"
  shows "fst (getAuthValue e currentDate reply dateNow s) = Inl err
       \<and> fst (snd (getAuthValue e currentDate reply dateNow s)) = s\<lparr>globalAuthValue := Some []\<rparr>
       \<and> globalAuthExpiry (fst (snd (getAuthValue e currentDate reply dateNow s)))
            = globalAuthExpiry s
       \<and> refresh_test (fst (snd (getAuthValue e currentDate reply dateNow s))) later"
  using assms
  by (auto simp: getAuthValue_def reply_error_def refresh_test_def falsy_def truthy_def Let_def
      split: option.splits prod.splits sum.splits)

theorem refresh_failure_resets_value_keeps_expiry_witness:
  "fst (getAuthValue oauth_env 0 JsonThrows 100 cached_10s) = Inl InvalidJson
   \<and> fst (snd (getAuthValue oauth_env 0 JsonThrows 100 cached_10s))
        = cached_10s\<lparr>globalAuthValue := Some []\<rparr>
   \<and> globalAuthExpiry (fst (snd (getAuthValue oauth_env 0 JsonThrows 100 cached_10s)))
        = Some (Date 10000)
   \<and> refresh_test (fst (snd (getAuthValue oauth_env 0 JsonThrows 100 cached_10s))) 200"
  using refresh_failure_resets_value_keeps_expiry
    [of oauth_env cached_10s 0 JsonThrows InvalidJson 100 200]
  by (simp add: oauth_env_def cached_10s_def falsy_def truthy_def refresh_test_def
      reply_error_def getBearerAuth_def getTime_def js_minus_def js_gt_def FIVE_SECONDS_MS_def)

text \<open>
  After a successful refresh the stored expiry is the clock of line 121 plus the number in
  \<^verbatim>\<open>expires_in\<close>, taken as milliseconds.
\<close>

lemma refresh_stores_expiry:
  assumes "falsy (AUTH e)" and "truthy (CLIENT_ID e)" and "refresh_test s currentDate"
    and "abs (dateNow + E) \<le> 8640000000000000"
  shows "globalAuthExpiry (fst (snd (getAuthValue e currentDate (Json tok (Some E)) dateNow s)))
           = Some (Date (dateNow + E))"
  using assms
  by (simp add: getAuthValue_oauth getBearerAuth_def new_Date_def js_plus_def)

text \<open>
  C3. The claim: after a successful refresh whose reply carries \<^verbatim>\<open>expires_in\<close> = E, a
  number of seconds, the stored expiry is the time of the refresh plus E * 1000 ms.
  Lines 121-123 add E itself to the clock in milliseconds. A token of one hour
  (E = 3600) obtained at 1000000 ms is stored as expiring at 1003600 ms, 3.6 s later,
  and not at 4600000 ms.
\<close>

theorem refresh_stores_expires_in_as_milliseconds:
  "fst (snd (getAuthValue oauth_env 1000000 (Json (Some ''tok'') (Some 3600)) 1000000
               initial_auth_state))
     = \<lparr>globalAuthValue = Some ''Bearer tok'', globalAuthExpiry = Some (Date 1003600)\<rparr>
   \<and> Date 1003600 \<noteq> Date (1000000 + 3600 * 1000)"
  by (simp add: auth_defs oauth_env_def initial_auth_state_def)

text \<open>
  C6. When the static \<^verbatim>\<open>AUTH\<close> value is set (a non-empty string, which is what the
  test of line 104 accepts), every call of \<^verbatim>\<open>getAuthValue\<close>, in any state of the
  cache and at any time, returns exactly that string and sends no fetch to the token
  endpoint, whatever the endpoint would answer.
\<close>

theorem static_auth_returned_without_fetch:
  assumes "AUTH e = Some a" and "a \<noteq> []"
  shows "getAuthValue e currentDate reply dateNow s
           = (Inr (Some a), s\<lparr>globalAuthValue := Some a\<rparr>, 0)"
  using assms by (simp add: getAuthValue_def truthy_def Let_def)

theorem static_auth_returned_without_fetch_witness:
  "getAuthValue static_env 0 FetchThrows 100 cached_10s
     = (Inr (Some ''Basic abc''), cached_10s\<lparr>globalAuthValue := Some ''Basic abc''\<rparr>, 0)"
  using static_auth_returned_without_fetch
    [of static_env "''Basic abc''" 0 FetchThrows 100 cached_10s]
  by (simp add: static_env_def oauth_env_def)

text \<open>
  C7. When neither \<^verbatim>\<open>AUTH\<close> nor \<^verbatim>\<open>CLIENT_ID\<close> is set (each undefined or empty),
  \<^verbatim>\<open>isAuthNeeded\<close> returns false and \<^verbatim>\<open>getAuthValue\<close> returns null, with no fetch.
\<close>

theorem no_auth_configured:
  assumes "falsy (AUTH e)" and "falsy (CLIENT_ID e)"
  shows "isAuthNeeded e = False
       \<and> getAuthValue e currentDate reply dateNow s
           = (Inr None, \<lparr>globalAuthValue = None, globalAuthExpiry = None\<rparr>, 0)"
  using assms
  by (auto simp: isAuthNeeded_def getAuthValue_def truthy_def falsy_def Let_def
      split: option.splits)

theorem no_auth_configured_witness:
  "isAuthNeeded open_env = False
   \<and> getAuthValue open_env 0 FetchThrows 100 cached_10s
        = (Inr None, \<lparr>globalAuthValue = None, globalAuthExpiry = None\<rparr>, 0)"
  using no_auth_configured [of open_env 0 FetchThrows 100 cached_10s]
  by (simp add: open_env_def oauth_env_def falsy_def)

section \<open>The client factory\<close>

lemma getClient_v2022_cached:
  "clientInstance m = Some r \<Longrightarrow> getClient_v2022 e m = (r, m)"
  by (simp add: getClient_v2022_def)

lemma getClient_v2022_first:
  "clientInstance m = None \<Longrightarrow>
     getClient_v2022 e m =
       (length (objects m),
        m\<lparr>clientInstance := Some (length (objects m)),
          objects := objects m @ [\<lparr>kind = DeliveryClient,
             config = \<lparr>contentServer = SERVER_URL e, contentVersion = API_VERSION e,
                       channelToken = CHANNEL_TOKEN e, beforeSend = False\<rparr>\<rparr>]\<rparr>)"
  by (simp add: getClient_v2022_def createDeliveryClient_def)

lemma getClient_v2022_sets_instance:
  "clientInstance (snd (getClient_v2022 e m)) = Some (fst (getClient_v2022 e m))"
  by (cases "clientInstance m") (simp_all add: getClient_v2022_first getClient_v2022_cached)

lemma after_calls_Suc:
  "after_calls e (Suc n) m = snd (getClient_v2022 e m)"
proof (induction n)
  case 0
  show ?case by (simp add: after_calls_def)
next
  case (Suc n)
  have "after_calls e (Suc (Suc n)) m = snd (getClient_v2022 e (after_calls e (Suc n) m))"
    by (simp add: after_calls_def)
  also have "\<dots> = snd (getClient_v2022 e (snd (getClient_v2022 e m)))"
    by (simp add: Suc.IH)
  also have "\<dots> = snd (getClient_v2022 e m)"
    using getClient_v2022_sets_instance [of e m] by (simp add: getClient_v2022_cached)
  finally show ?case .
qed

lemma getClient_v2021_fresh:
  "fst (getClient_v2021 e origin h) = length h
   \<and> length (snd (getClient_v2021 e origin h)) = Suc (length h)"
  by (simp add: getClient_v2021_def createDeliveryClient_def createPreviewClient_def Let_def)

lemma getClient_v2021_builds:
  "getClient_v2021 e origin h =
     (length h,
      h @ [\<lparr>kind = (if truthy (PREVIEW e) then PreviewClient else DeliveryClient),
             config = \<lparr>contentServer = (if isAuthNeeded e \<and> truthy (IS_BROWSER e)
                                         then Some (origin @ ''/'') else SERVER_URL e),
                       contentVersion = API_VERSION e, channelToken = CHANNEL_TOKEN e,
                       beforeSend = (isAuthNeeded e \<and> falsy (IS_BROWSER e))\<rparr>\<rparr>])"
  by (simp add: getClient_v2021_def createDeliveryClient_def createPreviewClient_def Let_def)

text \<open>
  C4, as stated, for the \<^verbatim>\<open>getClient\<close> of lines 162-197: it keeps no instance, and two
  calls under one configuration return two clients.
\<close>

theorem getClient_v2021_not_memoized_counterexample:
  "fst (getClient_v2021 open_env ''http://localhost:3000'' []) = 0
   \<and> fst (getClient_v2021 open_env ''http://localhost:3000''
            (snd (getClient_v2021 open_env ''http://localhost:3000'' []))) = 1
   \<and> fst (getClient_v2021 open_env ''http://localhost:3000''
            (snd (getClient_v2021 open_env ''http://localhost:3000'' [])))
       \<noteq> fst (getClient_v2021 open_env ''http://localhost:3000'' [])"
  by (simp add: getClient_v2021_def createDeliveryClient_def createPreviewClient_def Let_def
      open_env_def oauth_env_def isAuthNeeded_def truthy_def falsy_def)

text \<open>
  C4, amended: for every fixed configuration, the \<^verbatim>\<open>getClient\<close> that keeps
  \<^verbatim>\<open>clientInstance\<close> (lines 215-242) builds a delivery client on its first call and
  returns it, and every later call returns that same instance and builds nothing; the
  \<^verbatim>\<open>getClient\<close> of lines 162-197 builds a new client on each call and returns it.

  In the statement: the first call of the memoizing variant returns the address
  \<open>length (objects m)\<close>, which no object had before, keeps it in \<^verbatim>\<open>clientInstance\<close>,
  and the object at that address is the delivery client of the configuration, every older
  object being left as it was; each of the \<open>n + 1\<close> later calls returns that address and
  leaves the module as the first call left it. A call of the other variant on a heap \<open>h\<close>
  returns the address \<open>length h\<close>, which no object had before, where it has put the
  client of the configuration, so the address returned by the next call is another one.
\<close>

theorem getClient_memoized_only_in_v2022:
  assumes "clientInstance m = None"
  shows "getClient_v2022 e m =
           (length (objects m),
            m\<lparr>clientInstance := Some (length (objects m)),
              objects := objects m @ [\<lparr>kind = DeliveryClient,
                 config = \<lparr>contentServer = SERVER_URL e, contentVersion = API_VERSION e,
                           channelToken = CHANNEL_TOKEN e, beforeSend = False\<rparr>\<rparr>]\<rparr>)
       \<and> objects (snd (getClient_v2022 e m)) ! fst (getClient_v2022 e m) =
           \<lparr>kind = DeliveryClient,
            config = \<lparr>contentServer = SERVER_URL e, contentVersion = API_VERSION e,
                      channelToken = CHANNEL_TOKEN e, beforeSend = False\<rparr>\<rparr>
       \<and> getClient_v2022 e (after_calls e (Suc n) m) =
           (length (objects m), snd (getClient_v2022 e m))
       \<and> getClient_v2021 e origin h =
           (length h,
            h @ [\<lparr>kind = (if truthy (PREVIEW e) then PreviewClient else DeliveryClient),
                   config = \<lparr>contentServer = (if isAuthNeeded e \<and> truthy (IS_BROWSER e)
                                               then Some (origin @ ''/'') else SERVER_URL e),
                             contentVersion = API_VERSION e, channelToken = CHANNEL_TOKEN e,
                             beforeSend = (isAuthNeeded e \<and> falsy (IS_BROWSER e))\<rparr>\<rparr>])
       \<and> fst (getClient_v2021 e origin (snd (getClient_v2021 e origin h))) = Suc (length h)"
proof -
  have first: "getClient_v2022 e m =
           (length (objects m),
            m\<lparr>clientInstance := Some (length (objects m)),
              objects := objects m @ [\<lparr>kind = DeliveryClient,
                 config = \<lparr>contentServer = SERVER_URL e, contentVersion = API_VERSION e,
                           channelToken = CHANNEL_TOKEN e, beforeSend = False\<rparr>\<rparr>]\<rparr>)"
    using assms by (rule getClient_v2022_first)
  have obj: "objects (snd (getClient_v2022 e m)) ! fst (getClient_v2022 e m) =
           \<lparr>kind = DeliveryClient,
            config = \<lparr>contentServer = SERVER_URL e, contentVersion = API_VERSION e,
                      channelToken = CHANNEL_TOKEN e, beforeSend = False\<rparr>\<rparr>"
    by (simp add: first)
  have "getClient_v2022 e (after_calls e (Suc n) m) =
        (fst (getClient_v2022 e m), snd (getClient_v2022 e m))"
    using getClient_v2022_sets_instance [of e m]
    by (simp add: after_calls_Suc getClient_v2022_cached)
  then have later: "getClient_v2022 e (after_calls e (Suc n) m) =
           (length (objects m), snd (getClient_v2022 e m))"
    by (simp add: first)
  have again: "fst (getClient_v2021 e origin (snd (getClient_v2021 e origin h))) = Suc (length h)"
    using getClient_v2021_fresh [of e origin h]
      getClient_v2021_fresh [of e origin "snd (getClient_v2021 e origin h)"]
    by simp
  show ?thesis
    using first obj later getClient_v2021_builds [of e origin h] again
    by (intro conjI)
qed

theorem getClient_memoized_only_in_v2022_witness:
  "getClient_v2022 open_env fresh_module =
     (0, \<lparr>clientInstance = Some 0,
          objects = [\<lparr>kind = DeliveryClient,
             config = \<lparr>contentServer = Some ''https://host'', contentVersion = Some ''v1.1'',
                       channelToken = Some ''tok'', beforeSend = False\<rparr>\<rparr>]\<rparr>)
   \<and> getClient_v2022 open_env (after_calls open_env (Suc 2) fresh_module) =
     (0, \<lparr>clientInstance = Some 0,
          objects = [\<lparr>kind = DeliveryClient,
             config = \<lparr>contentServer = Some ''https://host'', contentVersion = Some ''v1.1'',
                       channelToken = Some ''tok'', beforeSend = False\<rparr>\<rparr>]\<rparr>)"
proof -
  have 0: "clientInstance fresh_module = None"
    by (simp add: fresh_module_def)
  have 1: "getClient_v2022 open_env fresh_module =
     (0, \<lparr>clientInstance = Some 0,
          objects = [\<lparr>kind = DeliveryClient,
             config = \<lparr>contentServer = Some ''https://host'', contentVersion = Some ''v1.1'',
                       channelToken = Some ''tok'', beforeSend = False\<rparr>\<rparr>]\<rparr>)"
    using getClient_memoized_only_in_v2022 [OF 0, of open_env 2 "''http://localhost:3000''" "[]",
        THEN conjunct1]
    by (simp add: fresh_module_def open_env_def oauth_env_def)
  have 2: "getClient_v2022 open_env (after_calls open_env (Suc 2) fresh_module) =
           (length (objects fresh_module), snd (getClient_v2022 open_env fresh_module))"
    using getClient_memoized_only_in_v2022 [OF 0, of open_env 2 "''http://localhost:3000''" "[]",
        THEN conjunct2, THEN conjunct2, THEN conjunct1] .
  show ?thesis using 1 2 by (simp add: fresh_module_def)
qed

section \<open>The image URL and the proxy handler\<close>

lemma js_replace_at_front: "js_replace (pat @ rest) pat rep = rep @ rest"
  by (cases pat; cases rest) simp_all

lemma js_replace_first_occurrence:
  "\<forall>j<length pre. \<not> prefix pat (drop j (pre @ pat @ post)) \<Longrightarrow>
     js_replace (pre @ pat @ post) pat rep = pre @ rep @ post"
proof (induction pre)
  case Nil
  show ?case using js_replace_at_front [of pat post rep] by simp
next
  case (Cons c pre)
  have p: "j < Suc (length pre) \<Longrightarrow> \<not> prefix pat (drop j (c # pre @ pat @ post))" for j
    using Cons.prems by simp
  have 0: "\<not> prefix pat (c # pre @ pat @ post)"
    using p [of 0] by simp
  have "\<forall>j<length pre. \<not> prefix pat (drop j (pre @ pat @ post))"
  proof (intro allI impI)
    fix j assume "j < length pre"
    then show "\<not> prefix pat (drop j (pre @ pat @ post))"
      using p [of "Suc j"] by simp
  qed
  then have 1: "js_replace (pre @ pat @ post) pat rep = pre @ rep @ post"
    by (rule Cons.IH)
  have "js_replace (c # pre @ pat @ post) pat rep = c # js_replace (pre @ pat @ post) pat rep"
    using 0 by (simp only: js_replace.simps if_False)
  then show ?case by (simp only: 1 append_Cons)
qed

lemma js_replace_absent:
  "\<not> sublist pat s \<Longrightarrow> js_replace s pat rep = s"
proof (induction s)
  case Nil
  then have "pat \<noteq> []" by (simp only: sublist_Nil_right not_False_eq_True)
  then show ?case by (simp only: js_replace.simps if_False)
next
  case (Cons c cs)
  have 0: "\<not> (prefix pat (c # cs) \<or> sublist pat cs)"
    using Cons.prems unfolding sublist_Cons_right .
  have 1: "\<not> prefix pat (c # cs)"
    using 0 by (rule contrapos_nn) (rule disjI1)
  have 2: "\<not> sublist pat cs"
    using 0 by (rule contrapos_nn) (rule disjI2)
  have "js_replace (c # cs) pat rep = c # js_replace cs pat rep"
    using 1 by (simp only: js_replace.simps if_False)
  then show ?case by (simp only: Cons.IH [OF 2])
qed

text \<open>
  C10. For every URL string \<open>u\<close>: when neither \<^verbatim>\<open>AUTH\<close> nor \<^verbatim>\<open>CLIENT_ID\<close> is
  configured, \<^verbatim>\<open>getImageUrl\<close> returns \<open>u\<close> unchanged; when either is configured, it
  returns \<open>u\<close> with the server URL at its front replaced by \<^verbatim>\<open>/api\<close> and the rest
  (path, query) as it was. Only the first occurrence is replaced: in general the leftmost
  occurrence of the server URL in \<open>u\<close>, and \<open>u\<close> is returned unchanged when the server
  URL does not occur in it.
\<close>

theorem getImageUrl_identity_or_api_prefix:
  assumes "NEXT_PUBLIC_SERVER_URL e = Some srv"
  shows "(falsy (AUTH e) \<and> falsy (CLIENT_ID e) \<longrightarrow> getImageUrl e u = u)
       \<and> (truthy (AUTH e) \<or> truthy (CLIENT_ID e) \<longrightarrow>
            getImageUrl e (srv @ rest) = ''/api'' @ rest
          \<and> ((\<forall>j<length pre. \<not> prefix srv (drop j (pre @ srv @ post))) \<longrightarrow>
               getImageUrl e (pre @ srv @ post) = pre @ ''/api'' @ post)
          \<and> (\<not> sublist srv u \<longrightarrow> getImageUrl e u = u))"
proof -
  have a: "falsy (AUTH e) \<and> falsy (CLIENT_ID e) \<longrightarrow> getImageUrl e u = u"
    by (auto simp: getImageUrl_def isAuthNeeded_def falsy_def truthy_def split: option.splits)
  have b: "truthy (AUTH e) \<or> truthy (CLIENT_ID e) \<Longrightarrow> getImageUrl e x = js_replace x srv ''/api''" for x
    using assms by (simp add: getImageUrl_def isAuthNeeded_def to_str_def)
  show ?thesis
    using a b js_replace_at_front [of srv rest "''/api''"]
      js_replace_first_occurrence [of pre srv post "''/api''"]
      js_replace_absent [of srv u "''/api''"]
    by simp
qed

theorem getImageUrl_identity_or_api_prefix_witness:
  "getImageUrl open_env ''https://host/content/a.jpg?x=1'' = ''https://host/content/a.jpg?x=1''
   \<and> getImageUrl oauth_env (''https://host'' @ ''/content/a.jpg?u=https://host'')
        = ''/api'' @ ''/content/a.jpg?u=https://host''"
proof -
  have 1: "NEXT_PUBLIC_SERVER_URL open_env = Some ''https://host''"
    by (simp add: open_env_def oauth_env_def)
  have 2: "NEXT_PUBLIC_SERVER_URL oauth_env = Some ''https://host''"
    by (simp add: oauth_env_def)
  have 3: "falsy (AUTH open_env) \<and> falsy (CLIENT_ID open_env)"
    by (simp add: open_env_def oauth_env_def falsy_def)
  have 4: "truthy (AUTH oauth_env) \<or> truthy (CLIENT_ID oauth_env)"
    by (simp add: oauth_env_def truthy_def)
  have a: "getImageUrl open_env ''https://host/content/a.jpg?x=1'' = ''https://host/content/a.jpg?x=1''"
    using getImageUrl_identity_or_api_prefix
      [OF 1, THEN conjunct1, THEN mp, OF 3] .
  have b: "getImageUrl oauth_env (''https://host'' @ ''/content/a.jpg?u=https://host'')
        = ''/api'' @ ''/content/a.jpg?u=https://host''"
    using getImageUrl_identity_or_api_prefix
      [OF 2, THEN conjunct2, THEN mp, OF 4, THEN conjunct1] .
  show ?thesis using a b by (rule conjI)
qed

lemma handleContentRequest_GET:
  assumes "req_method req = ''GET''" and "req_url req = ''/api/'' @ rest"
    and "NEXT_PUBLIC_SERVER_URL e = Some srv"
    and "res_head res = None"
    and "node_request (if prefix ''https'' (srv @ ''/'' @ rest) then Https else Http)
           (srv @ ''/'' @ rest) (if truthy authValue then authValue else None) = None"
  shows "handleContentRequest e node_request upstream req res authValue =
           (Forwarded \<lparr>via = (if prefix ''https'' (srv @ ''/'' @ rest) then Https else Http),
                        oceUrl = srv @ ''/'' @ rest,
                        authorization = (if truthy authValue then authValue else None),
                        out_body = req_body req\<rparr>,
            case upstream \<lparr>via = (if prefix ''https'' (srv @ ''/'' @ rest) then Https else Http),
                            oceUrl = srv @ ''/'' @ rest,
                            authorization = (if truthy authValue then authValue else None),
                            out_body = req_body req\<rparr> of
              None \<Rightarrow> res
            | Some r \<Rightarrow> res\<lparr>res_head := Some (statusCode r, headers r),
                             res_body := res_body res @ body r, res_ended := True\<rparr>)"
proof -
  have "js_replace (''/api/'' @ rest) ''/api/'' ''/'' = ''/'' @ rest"
    by (rule js_replace_at_front)
  then show ?thesis
    using assms
    by (simp add: handleContentRequest_def to_str_def Let_def writeProxyContent_def
        writeHead_def pipe_end_def split: option.splits)
qed

text \<open>
  A request that is not a GET is ignored; when the credential cannot be obtained the
  request is never passed on; and when Node refuses the URL built, nothing is sent. In each
  case nothing is written to \<^verbatim>\<open>res\<close>.
\<close>

lemma handler_drops:
  "req_method req \<noteq> ''GET'' \<Longrightarrow>
     handleContentRequest e node_request upstream req res authValue = (Ignored, res)"
  "isAuthNeeded e \<Longrightarrow> fst (getAuthValue e currentDate reply dateNow s) = Inl err \<Longrightarrow>
     fst (handler e node_request upstream req res currentDate reply dateNow s) = AuthRejected err
     \<and> fst (snd (handler e node_request upstream req res currentDate reply dateNow s)) = res"
  by (auto simp: handleContentRequest_def handler_def split: prod.splits sum.splits)

text \<open>
  C5, as stated: every GET request to \<^verbatim>\<open>/api/<upstream-path>\<close> is passed on to the
  content server and the answer relayed. With a client id configured and a token endpoint
  that cannot be reached, the promise of \<^verbatim>\<open>getAuthValue\<close> is rejected and
  \<^verbatim>\<open>GET /api/foo/bar?x=1\<close> is not passed on: nothing is sent and nothing is written.
  With a server URL without a scheme, the URL built is \<^verbatim>\<open>host/foo/bar?x=1\<close>, the call
  of \<^verbatim>\<open>http.request\<close> throws, and again nothing is sent.
\<close>

theorem handler_GET_not_forwarded_counterexample:
  "handler oauth_env sample_node_request echo_server get_foo_bar fresh_res
       0 FetchThrows 100 initial_auth_state
     = (AuthRejected FetchError, fresh_res, initial_auth_state)
   \<and> handler no_scheme_env sample_node_request echo_server get_foo_bar fresh_res
       0 FetchThrows 100 initial_auth_state
     = (Threw TypeError, fresh_res, initial_auth_state)"
  by (simp add: handler_def handleContentRequest_def isAuthNeeded_def auth_defs
      sample_node_request_def no_scheme_env_def open_env_def oauth_env_def get_foo_bar_def
      initial_auth_state_def fresh_res_def Let_def)

text \<open>
  C5, amended: for every GET request to the proxy endpoint whose path is
  \<^verbatim>\<open>/api/<upstream-path>\<close> with query string \<open>query\<close>, when the credential is obtained
  (or none is needed) and Node accepts the URL built, the handler passes the request on to
  \<^verbatim>\<open><server URL>/<upstream-path>\<close> with the same query string, and when the content
  server answers, the status code, the headers and the body of its answer are written to
  the caller unchanged.

  \<^verbatim>\<open>req.url\<close> holds the path followed by the query string; next.config.js line 66
  sets \<^verbatim>\<open>NEXT_PUBLIC_SERVER_URL\<close> to \<^verbatim>\<open>SERVER_URL\<close>; \<^verbatim>\<open>res\<close> is the response
  as the framework hands it over, its head not written yet.
\<close>

theorem handler_forwards_GET_and_relays:
  assumes "req_method req = ''GET''"
    and "req_url req = ''/api/'' @ path @ query"
    and "NEXT_PUBLIC_SERVER_URL e = Some srv"
    and "fst (getAuthValue e currentDate reply dateNow s) = Inr authValue"
    and "res_head res = None"
    and "node_request (if prefix ''https'' (srv @ ''/'' @ path @ query) then Https else Http)
           (srv @ ''/'' @ path @ query) (if truthy authValue then authValue else None) = None"
  shows "fst (handler e node_request upstream req res currentDate reply dateNow s) =
           Forwarded \<lparr>via = (if prefix ''https'' (srv @ ''/'' @ path @ query)
                              then Https else Http),
                       oceUrl = srv @ ''/'' @ path @ query,
                       authorization = (if truthy authValue then authValue else None),
                       out_body = req_body req\<rparr>
       \<and> fst (snd (handler e node_request upstream req res currentDate reply dateNow s)) =
           (case upstream \<lparr>via = (if prefix ''https'' (srv @ ''/'' @ path @ query)
                                   then Https else Http),
                            oceUrl = srv @ ''/'' @ path @ query,
                            authorization = (if truthy authValue then authValue else None),
                            out_body = req_body req\<rparr> of
              None \<Rightarrow> res
            | Some r \<Rightarrow> res\<lparr>res_head := Some (statusCode r, headers r),
                             res_body := res_body res @ body r, res_ended := True\<rparr>)"
proof (cases "isAuthNeeded e")
  case True
  obtain s1 k where g: "getAuthValue e currentDate reply dateNow s = (Inr authValue, s1, k)"
    using assms(4) by (cases "getAuthValue e currentDate reply dateNow s") auto
  have h: "handler e node_request upstream req res currentDate reply dateNow s =
             (fst (handleContentRequest e node_request upstream req res authValue),
              snd (handleContentRequest e node_request upstream req res authValue), s1)"
    using True g by (simp add: handler_def split_def Let_def)
  show ?thesis
    unfolding h
    using handleContentRequest_GET
      [where req = req and rest = "path @ query" and e = e and srv = srv and res = res
         and node_request = node_request and authValue = authValue and upstream = upstream,
       OF assms(1) assms(2) assms(3) assms(5) assms(6)]
    by simp
next
  case False
  then have "falsy (AUTH e)" and "falsy (CLIENT_ID e)"
    by (auto simp: isAuthNeeded_def truthy_def falsy_def split: option.splits if_splits)
  then have "fst (getAuthValue e currentDate reply dateNow s) = Inr None"
    by (auto simp: getAuthValue_def truthy_def falsy_def Let_def split: option.splits)
  then have n: "authValue = None"
    using assms(4) by simp
  have t: "(if truthy (Some []) then Some [] else None) = (if truthy authValue then authValue else None)"
    by (simp add: n truthy_def)
  have 6: "node_request (if prefix ''https'' (srv @ ''/'' @ path @ query) then Https else Http)
           (srv @ ''/'' @ path @ query) (if truthy (Some []) then Some [] else None) = None"
    using assms(6) by (simp only: t)
  have h: "handler e node_request upstream req res currentDate reply dateNow s =
             (fst (handleContentRequest e node_request upstream req res (Some [])),
              snd (handleContentRequest e node_request upstream req res (Some [])), s)"
    using False by (simp add: handler_def split_def Let_def)
  show ?thesis
    unfolding h
    using handleContentRequest_GET
      [where req = req and rest = "path @ query" and e = e and srv = srv and res = res
         and node_request = node_request and authValue = "Some []" and upstream = upstream,
       OF assms(1) assms(2) assms(3) assms(5) 6]
    by (simp only: t fst_conv snd_conv simp_thms)
qed

theorem handler_forwards_GET_and_relays_witness:
  "fst (handler static_env sample_node_request echo_server get_foo_bar fresh_res
          0 FetchThrows 0 initial_auth_state)
     = Forwarded \<lparr>via = Https, oceUrl = ''https://host/foo/bar?x=1'',
                  authorization = Some ''Basic abc'', out_body = []\<rparr>
   \<and> fst (snd (handler static_env sample_node_request echo_server get_foo_bar fresh_res
          0 FetchThrows 0 initial_auth_state))
     = \<lparr>res_head = Some (200, [(''content-type'', ''image/jpeg'')]),
        res_body = ''https://host/foo/bar?x=1'', res_ended = True\<rparr>"
proof -
  have 1: "req_method get_foo_bar = ''GET''"
    by (simp add: get_foo_bar_def)
  have 2: "req_url get_foo_bar = ''/api/'' @ ''foo/bar'' @ ''?x=1''"
    by (simp add: get_foo_bar_def)
  have 3: "NEXT_PUBLIC_SERVER_URL static_env = Some ''https://host''"
    by (simp add: static_env_def oauth_env_def)
  have 4: "fst (getAuthValue static_env 0 FetchThrows 0 initial_auth_state)
             = Inr (Some ''Basic abc'')"
    by (simp add: getAuthValue_def static_env_def oauth_env_def truthy_def Let_def)
  have 5: "res_head fresh_res = None"
    by (simp add: fresh_res_def)
  have 6: "sample_node_request
             (if prefix ''https'' (''https://host'' @ ''/'' @ ''foo/bar'' @ ''?x=1'')
              then Https else Http)
             (''https://host'' @ ''/'' @ ''foo/bar'' @ ''?x=1'')
             (if truthy (Some ''Basic abc'') then Some ''Basic abc'' else None) = None"
    by (simp add: sample_node_request_def)
  show ?thesis
    using handler_forwards_GET_and_relays
      [where req = get_foo_bar and path = "''foo/bar''" and query = "''?x=1''"
         and e = static_env and srv = "''https://host''" and currentDate = 0
         and reply = FetchThrows and dateNow = 0 and s = initial_auth_state
         and authValue = "Some ''Basic abc''" and res = fresh_res
         and node_request = sample_node_request and upstream = echo_server,
       OF 1 2 3 4 5 6]
    by (simp add: echo_server_def fresh_res_def get_foo_bar_def truthy_def)
qed

section \<open>Flattening and the items of the categories\<close>

lemma flattenArray_acc: "flattenArray vs acc = acc @ concat (map leaves vs)"
  by (induction vs acc rule: flattenArray.induct) simp_all

text \<open>
  C9. For every nested input array, \<^verbatim>\<open>flattenArray\<close> (called with its default
  accumulator, the empty array) returns the non-array elements at every depth, from left to
  right; for an input without nested arrays it returns a list equal to the input.
\<close>

theorem flattenArray_flattens_fully:
  "flattenArray inArray [] = leaves (Array inArray)
   \<and> flattenArray (map Atom xs) [] = xs"
proof -
  have "concat (map leaves (map Atom xs)) = xs"
    by (induction xs) simp_all
  then show ?thesis by (simp add: flattenArray_acc)
qed

lemma flattenArray_atoms: "flattenArray (map Atom xs) acc = acc @ xs"
  by (induction xs arbitrary: acc) simp_all

lemma those_map_Some: "those (map (\<lambda>k. Some (f k)) ks) = Some (map f ks)"
  by (induction ks) simp_all

lemma then_callback_Some:
  "then_callback store a (Some t) =
     Inr ((store a)\<lparr>cat_items := Some (items t), cat_totalResults := Some (totalResults t)\<rparr>,
          store(a := (store a)\<lparr>cat_items := Some (items t),
                                cat_totalResults := Some (totalResults t)\<rparr>))"
  by (simp add: then_callback_def Let_def)

lemma fill_erased:
  assumes "c\<lparr>cat_items := None, cat_totalResults := None\<rparr>
             = d\<lparr>cat_items := None, cat_totalResults := None\<rparr>"
  shows "c\<lparr>cat_items := x, cat_totalResults := y\<rparr> = d\<lparr>cat_items := x, cat_totalResults := y\<rparr>"
proof -
  have "cat_id c = cat_id d" and "category.more c = category.more d"
    using assms by (cases c, cases d, simp)+
  then show ?thesis by simp
qed

lemma flattenArray_atoms_map: "flattenArray (map (Atom \<circ> f) ks) [] = map f ks"
  using flattenArray_atoms [of "map f ks" "[]"] by (simp only: map_map append_Nil)

lemma settle_all_fulfilled:
  assumes "\<forall>k\<in>set order. k < length categories \<longrightarrow> fetched k = Some (t k)"
    and "length slots = length categories"
    and "\<forall>a. (store a)\<lparr>cat_items := None, cat_totalResults := None\<rparr>
              = (store0 a)\<lparr>cat_items := None, cat_totalResults := None\<rparr>"
  shows "snd (settle_all fetched categories order store slots rejection) =
           (map (\<lambda>k. if k \<in> set order
                      then Some ((store0 (categories ! k))\<lparr>cat_items := Some (items (t k)),
                                   cat_totalResults := Some (totalResults (t k))\<rparr>)
                      else slots ! k) [0..<length categories],
            rejection)"
  using assms
proof (induction order arbitrary: store slots)
  case Nil
  have "map (\<lambda>k. slots ! k) [0..<length slots] = slots"
    by (rule map_nth)
  then have "map (\<lambda>k. slots ! k) [0..<length categories] = slots"
    by (simp only: Nil.prems(2))
  then show ?case by simp
next
  case (Cons k order)
  let ?want = "\<lambda>j. Some ((store0 (categories ! j))\<lparr>cat_items := Some (items (t j)),
                                 cat_totalResults := Some (totalResults (t j))\<rparr>)"
  have rest: "\<forall>j\<in>set order. j < length categories \<longrightarrow> fetched j = Some (t j)"
    using Cons.prems(1) by simp
  show ?case
  proof (cases "k < length categories")
    case False
    have step: "settle_all fetched categories (k # order) store slots rejection =
                  settle_all fetched categories order store slots rejection"
      using False by simp
    have r: "snd (settle_all fetched categories order store slots rejection) =
         (map (\<lambda>j. if j \<in> set order then ?want j else slots ! j) [0..<length categories],
          rejection)"
      by (rule Cons.IH [OF rest Cons.prems(2) Cons.prems(3)])
    have "map (\<lambda>j. if j \<in> set order then ?want j else slots ! j) [0..<length categories]
        = map (\<lambda>j. if j \<in> set (k # order) then ?want j else slots ! j) [0..<length categories]"
    proof (rule map_cong [OF refl])
      fix j assume "j \<in> set [0..<length categories]"
      then have "j \<noteq> k" using False by auto
      then show "(if j \<in> set order then ?want j else slots ! j)
               = (if j \<in> set (k # order) then ?want j else slots ! j)"
        by simp
    qed
    then show ?thesis by (simp only: step r)
  next
    case True
    let ?a = "categories ! k"
    let ?copy = "(store ?a)\<lparr>cat_items := Some (items (t k)),
                              cat_totalResults := Some (totalResults (t k))\<rparr>"
    let ?store1 = "store(?a := ?copy)"
    let ?slots1 = "slots[k := Some ?copy]"
    have f: "fetched k = Some (t k)"
      using Cons.prems(1) True by simp
    have "(store ?a)\<lparr>cat_items := None, cat_totalResults := None\<rparr>
              = (store0 ?a)\<lparr>cat_items := None, cat_totalResults := None\<rparr>"
      using Cons.prems(3) by (rule spec)
    then have copy: "?copy = (store0 ?a)\<lparr>cat_items := Some (items (t k)),
                                      cat_totalResults := Some (totalResults (t k))\<rparr>"
      by (rule fill_erased)
    have step: "settle_all fetched categories (k # order) store slots rejection =
                  settle_all fetched categories order ?store1 ?slots1 rejection"
      using True f by (simp add: then_callback_Some)
    have len: "length ?slots1 = length categories"
      using Cons.prems(2) by simp
    have inv: "\<forall>a. (?store1 a)\<lparr>cat_items := None, cat_totalResults := None\<rparr>
              = (store0 a)\<lparr>cat_items := None, cat_totalResults := None\<rparr>"
    proof
      fix a
      have 1: "(store a)\<lparr>cat_items := None, cat_totalResults := None\<rparr>
              = (store0 a)\<lparr>cat_items := None, cat_totalResults := None\<rparr>"
        using Cons.prems(3) by (rule spec)
      show "(?store1 a)\<lparr>cat_items := None, cat_totalResults := None\<rparr>
              = (store0 a)\<lparr>cat_items := None, cat_totalResults := None\<rparr>"
      proof (cases "a = ?a")
        case True
        then show ?thesis using 1 by simp
      next
        case False
        then show ?thesis using 1 by simp
      qed
    qed
    have r: "snd (settle_all fetched categories order ?store1 ?slots1 rejection) =
         (map (\<lambda>j. if j \<in> set order then ?want j else ?slots1 ! j) [0..<length categories],
          rejection)"
      by (rule Cons.IH [OF rest len inv])
    have "map (\<lambda>j. if j \<in> set order then ?want j else ?slots1 ! j) [0..<length categories]
        = map (\<lambda>j. if j \<in> set (k # order) then ?want j else slots ! j) [0..<length categories]"
    proof (rule map_cong [OF refl])
      fix j assume "j \<in> set [0..<length categories]"
      then have "j < length slots" using Cons.prems(2) by simp
      then show "(if j \<in> set order then ?want j else ?slots1 ! j)
               = (if j \<in> set (k # order) then ?want j else slots ! j)"
        using copy by (cases "j = k") simp_all
    qed
    then show ?thesis by (simp only: step r)
  qed
qed

text \<open>
  C8, as stated: for every input list of N categories the promise resolves to N category
  objects. A fetch that fails is settled with undefined (line 119), the callback of its
  category throws on reading \<^verbatim>\<open>items\<close> of undefined (line 190), and the promise of
  \<^verbatim>\<open>addItemsToCategories\<close> is rejected: for two categories, the fetch of the first
  failing, there is no list of two objects.
\<close>

theorem addItemsToCategories_rejected_counterexample:
  "fst (addItemsToCategories failing_getItems two_categories [0, 1] [1, 0]) = Rejected TypeError
   \<and> fst (addItemsToCategories failing_getItems two_categories [0, 1] [0, 1]) = Rejected TypeError"
  by (simp add: addItemsToCategories_def fetchItemsForCategory_def then_callback_def
      failing_getItems_def sample_getItems_def two_categories_def Let_def)

text \<open>
  C8, amended: for every input list of N categories whose item fetches all return data,
  \<^verbatim>\<open>addItemsToCategories\<close> resolves to a list of exactly N category objects, the
  \<open>k\<close>-th of them the \<open>k\<close>-th input category with the items and the total of its own
  fetch, in whatever order the fetches complete.
\<close>

theorem addItemsToCategories_keeps_input_order:
  assumes "completion_order (length categories) order"
    and "\<forall>k<length categories.
           fetchItemsForCategory (getItems k) (cat_id (store (categories ! k))) True = Some (t k)"
  shows "\<exists>rs. fst (addItemsToCategories getItems store categories order) = Fulfilled rs
            \<and> length rs = length categories
            \<and> (\<forall>k<length categories.
                  rs ! k = (store (categories ! k))\<lparr>cat_items := Some (items (t k)),
                               cat_totalResults := Some (totalResults (t k))\<rparr>)"
proof -
  let ?fetched = "\<lambda>k. fetchItemsForCategory (getItems k) (cat_id (store (categories ! k))) True"
  let ?n = "length categories"
  let ?fill = "\<lambda>k. (store (categories ! k))\<lparr>cat_items := Some (items (t k)),
                               cat_totalResults := Some (totalResults (t k))\<rparr>"
  have s: "set order = {0..<?n}"
    using assms(1) by (simp add: completion_order_def)
  have 1: "\<forall>k\<in>set order. k < ?n \<longrightarrow> ?fetched k = Some (t k)"
    using assms(2) by simp
  have 2: "length (replicate ?n (None :: ('a, 'b, 'c) category_scheme option)) = ?n"
    by simp
  have 3: "\<forall>a. (store a)\<lparr>cat_items := None, cat_totalResults := None\<rparr>
              = (store a)\<lparr>cat_items := None, cat_totalResults := None\<rparr>"
    by simp
  have r: "snd (settle_all ?fetched categories order store (replicate ?n None) None) =
       (map (\<lambda>k. if k \<in> set order then Some (?fill k) else replicate ?n None ! k) [0..<?n],
        None)"
    by (rule settle_all_fulfilled [OF 1 2 3])
  have "map (\<lambda>k. if k \<in> set order then Some (?fill k) else replicate ?n None ! k) [0..<?n]
             = map (\<lambda>k. Some (?fill k)) [0..<?n]"
  proof (rule map_cong [OF refl])
    fix k assume "k \<in> set [0..<?n]"
    then have "k \<in> set order" using s by simp
    then show "(if k \<in> set order then Some (?fill k) else replicate ?n None ! k) = Some (?fill k)"
      by simp
  qed
  then have "snd (settle_all ?fetched categories order store (replicate ?n None) None) =
       (map (\<lambda>k. Some (?fill k)) [0..<?n], None)"
    by (simp only: r)
  then have "fst (addItemsToCategories getItems store categories order)
               = Fulfilled (map ?fill [0..<?n])"
    by (simp add: addItemsToCategories_def split_def those_map_Some flattenArray_atoms_map)
  then show ?thesis by simp
qed

theorem addItemsToCategories_keeps_input_order_witness:
  "\<exists>rs. fst (addItemsToCategories sample_getItems two_categories [0, 1] [1, 0]) = Fulfilled rs
       \<and> length rs = 2
       \<and> rs ! 0 = \<lparr>cat_id = ''c0'', cat_items = Some [''item of call 0''],
                    cat_totalResults = Some 4\<rparr>
       \<and> rs ! 1 = \<lparr>cat_id = ''c1'', cat_items = Some [''item of call 1''],
                    cat_totalResults = Some 5\<rparr>"
proof -
  let ?t = "\<lambda>k::nat. \<lparr>items = [''item of call '' @ (if k = 0 then ''0'' else ''1'')],
                        totalResults = 4 + k\<rparr>"
  have 1: "completion_order (length [0::nat, 1]) [1, 0]"
    by (auto simp: completion_order_def)
  have 2: "\<forall>k<length [0::nat, 1].
             fetchItemsForCategory (sample_getItems k) (cat_id (two_categories ([0, 1] ! k))) True
               = Some (?t k)"
    by (simp add: fetchItemsForCategory_def sample_getItems_def)
  obtain rs where r: "fst (addItemsToCategories sample_getItems two_categories [0, 1] [1, 0])
                        = Fulfilled rs"
    and l: "length rs = length [0::nat, 1]"
    and n: "\<forall>k<length [0::nat, 1].
              rs ! k = (two_categories ([0, 1] ! k))\<lparr>cat_items := Some (items (?t k)),
                           cat_totalResults := Some (totalResults (?t k))\<rparr>"
    using addItemsToCategories_keeps_input_order [OF 1 2] by (elim exE conjE)
  have "rs ! 0 = (two_categories ([0, 1] ! 0))\<lparr>cat_items := Some (items (?t 0)),
                           cat_totalResults := Some (totalResults (?t 0))\<rparr>"
    using n by simp
  then have a: "rs ! 0 = \<lparr>cat_id = ''c0'', cat_items = Some [''item of call 0''],
                    cat_totalResults = Some 4\<rparr>"
    by (simp add: two_categories_def)
  have "rs ! 1 = (two_categories ([0, 1] ! 1))\<lparr>cat_items := Some (items (?t 1)),
                           cat_totalResults := Some (totalResults (?t 1))\<rparr>"
    using n by simp
  then have b: "rs ! 1 = \<lparr>cat_id = ''c1'', cat_items = Some [''item of call 1''],
                    cat_totalResults = Some 5\<rparr>"
    by (simp add: two_categories_def)
  show ?thesis using r l a b by simp
qed

end
